theory Spec2Isabelle
  imports Main "HOL-Library.Sublist"
begin

section \<open>Collaborative text binding: the diff inside \<open>setValue\<close>\<close>

text \<open>
  A JavaScript string is a sequence of UTF-16 code units; the diff only compares code
  units for equality and counts them, so the text is modelled as a list over an
  arbitrary code-unit type. Indices are natural numbers: every subtraction the source
  performs is on values for which it cannot go below zero (see \<open>prefixLoop_le\<close> and
  \<open>suffixLoop_le\<close>).
\<close>

text \<open>
  The first loop of \<open>setValue\<close>:
  \<^verbatim>\<open>while (prefixLen < prev.length && prefixLen < next.length
          && prev[prefixLen] === next[prefixLen]) prefixLen++;\<close>
\<close>

function prefixLoop :: "'a list \<Rightarrow> 'a list \<Rightarrow> nat \<Rightarrow> nat" where
  "prefixLoop prev nxt prefixLen =
     (if prefixLen < length prev \<and> prefixLen < length nxt \<and> prev ! prefixLen = nxt ! prefixLen
      then prefixLoop prev nxt (Suc prefixLen)
      else prefixLen)"
  by pat_completeness auto
termination
  by (relation "measure (\<lambda>(prev, nxt, prefixLen). length prev - prefixLen)") auto

declare prefixLoop.simps [simp del]

text \<open>
  The second loop of \<open>setValue\<close>:
  \<^verbatim>\<open>while (suffixLen < prev.length - prefixLen && suffixLen < next.length - prefixLen
          && prev[prev.length - 1 - suffixLen] === next[next.length - 1 - suffixLen])
     suffixLen++;\<close>
\<close>

function suffixLoop :: "'a list \<Rightarrow> 'a list \<Rightarrow> nat \<Rightarrow> nat \<Rightarrow> nat" where
  "suffixLoop prev nxt prefixLen suffixLen =
     (if suffixLen < length prev - prefixLen \<and> suffixLen < length nxt - prefixLen
         \<and> prev ! (length prev - 1 - suffixLen) = nxt ! (length nxt - 1 - suffixLen)
      then suffixLoop prev nxt prefixLen (Suc suffixLen)
      else suffixLen)"
  by pat_completeness auto
termination
  by (relation "measure (\<lambda>(prev, nxt, prefixLen, suffixLen). length prev - prefixLen - suffixLen)")
    auto

declare suffixLoop.simps [simp del]

text \<open>\<open>String.prototype.slice(start, end)\<close> for \<open>0 \<le> start\<close> and \<open>0 \<le> end\<close>: the end is
  clamped to the length and an end before the start gives the empty string.\<close>

definition slice :: "'a list \<Rightarrow> nat \<Rightarrow> nat \<Rightarrow> 'a list" where
  "slice s start end = take (end - start) (drop start s)"

text \<open>The two calls \<open>setValue\<close> makes on the bound sequence: \<open>yText.delete(index, length)\<close>
  and \<open>yText.insert(index, text)\<close>.\<close>

datatype 'a yop = Delete nat nat | Insert nat "'a list"

text \<open>The edit region computed inside the transaction of \<open>setValue\<close>.\<close>

record 'a diff =
  prefixLen :: nat
  suffixLen :: nat
  deleteLen :: nat
  insertText :: "'a list"

definition computeDiff :: "'a list \<Rightarrow> 'a list \<Rightarrow> 'a diff" where
  "computeDiff prev nxt =
     (let p = prefixLoop prev nxt 0;
          s = suffixLoop prev nxt p 0
      in \<lparr> prefixLen = p, suffixLen = s,
           deleteLen = length prev - p - s,
           insertText = slice nxt p (length nxt - s) \<rparr>)"

text \<open>The calls the transaction makes: the delete only when \<open>deleteLen > 0\<close>, the insert
  only when \<open>insertText.length > 0\<close>, in this order.\<close>

definition diffOps :: "'a diff \<Rightarrow> 'a yop list" where
  "diffOps d =
     (if deleteLen d > 0 then [Delete (prefixLen d) (deleteLen d)] else []) @
     (if length (insertText d) > 0 then [Insert (prefixLen d) (insertText d)] else [])"

text \<open>
  The document as \<open>setValue\<close> sees it: the bound sequence, and the transactions committed
  on the document, each recorded with its origin tag (the hook's \<open>Symbol('user-origin')\<close>,
  an identity, here a number) and the calls made in it.

  \<open>Y.Text\<close> belongs to the library Yjs, which is not part of the repository. \<open>setValue\<close>
  is therefore defined over any implementation of the sequence, given by two functions:
  \<open>toStr\<close> is \<open>yText.toString()\<close> and \<open>perform\<close> is one call of \<open>yText.delete\<close> or
  \<open>yText.insert\<close>.
\<close>

type_synonym origin = nat

record ('a, 'y) ydoc =
  boundText :: 'y
  transactions :: "(origin \<times> 'a yop list) list"

definition setValue ::
  "('y \<Rightarrow> 'a list) \<Rightarrow> ('a yop \<Rightarrow> 'y \<Rightarrow> 'y) \<Rightarrow> origin \<Rightarrow> 'a list \<Rightarrow> ('a, 'y) ydoc \<Rightarrow> ('a, 'y) ydoc" where
  "setValue toStr perform orig nxt doc =
     (let prev = toStr (boundText doc) in
      if prev = nxt then doc
      else
        let ops = diffOps (computeDiff prev nxt)
        in doc \<lparr> boundText := fold perform ops (boundText doc),
                 transactions := transactions doc @ [(orig, ops)] \<rparr>)"

subsection \<open>The library's sequence\<close>

text \<open>
  How the \<open>Y.Text\<close> of Yjs acts on one replica, as far as \<open>setValue\<close> can observe it. The
  text is held in items, each a string of UTF-16 code units; the state below is the list
  of the items that are not deleted, in document order, and \<open>toString\<close> concatenates them.
  An operation walks to its index and, when the index lies inside an item, cuts the item
  in two there (\<open>ContentString.splice(offset)\<close>, called with an offset inside the string).
  The library does not keep half a surrogate pair at a cut: when the left part ends in a
  high surrogate, that code unit and the first code unit of the right part are both
  replaced by U+FFFD.
\<close>

type_synonym codeUnit = nat

definition isHighSurrogate :: "codeUnit \<Rightarrow> bool" where
  "isHighSurrogate c = (55296 \<le> c \<and> c \<le> 56319)"

definition REPLACEMENT_CHARACTER :: codeUnit where
  "REPLACEMENT_CHARACTER = 65533"

definition contentSplice :: "codeUnit list \<Rightarrow> nat \<Rightarrow> codeUnit list \<times> codeUnit list" where
  "contentSplice str offset =
     (let right = drop offset str;
          left = take offset str
      in if 0 < offset \<and> offset \<le> length str \<and> isHighSurrogate (left ! (offset - 1))
         then (take (offset - 1) left @ [REPLACEMENT_CHARACTER],
               REPLACEMENT_CHARACTER # drop 1 right)
         else (left, right))"

text \<open>The walk to an index: the items before it and the items from it on.\<close>

fun splitItems :: "codeUnit list list \<Rightarrow> nat \<Rightarrow> codeUnit list list \<times> codeUnit list list" where
  "splitItems [] index = ([], [])"
| "splitItems (item # rest) index =
     (if index = 0 then ([], item # rest)
      else if index < length item
           then (let (left, right) = contentSplice item index in ([left], right # rest))
           else (let (before, after) = splitItems rest (index - length item)
                 in (item # before, after)))"

fun yjsPerform :: "codeUnit yop \<Rightarrow> codeUnit list list \<Rightarrow> codeUnit list list" where
  "yjsPerform (Delete index len) items =
     (let (before, rest) = splitItems items index;
          (gone, after) = splitItems rest len
      in before @ after)"
| "yjsPerform (Insert index t) items =
     (let (before, after) = splitItems items index
      in before @ [t] @ after)"

definition yjsToString :: "codeUnit list list \<Rightarrow> codeUnit list" where
  "yjsToString items = concat items"


section \<open>The shared structural store\<close>

text \<open>
  The records of \<open>slide.types.ts\<close>. Field names carry a prefix where two interfaces share
  a name (\<open>id\<close>, \<open>createdAt\<close>) or the name is taken in HOL. The mutations below only store,
  copy and compare numbers (a timestamp against zero), so a number is an integer here.

  The stored data can have a legacy shape, which the code tests for: \<open>textBoxes\<close> may be
  something that is not an array, and \<open>backgroundColor\<close> and \<open>createdAt\<close> may be absent.
\<close>

type_synonym number = int

record TextBox =
  tb_id :: string
  tb_text :: string
  tb_x :: number
  tb_y :: number
  tb_width :: number
  tb_height :: number
  tb_fontSize :: number
  tb_color :: string
  tb_createdBy :: string
  tb_createdAt :: number

text \<open>The value of a slide's \<open>textBoxes\<close> field: an array, or any other value (kept as an
  opaque description), for which \<open>Array.isArray\<close> is false.\<close>

datatype textBoxesField = IsArray "TextBox list" | NotArray string

record Slide =
  slide_id :: string
  textBoxes :: textBoxesField
  backgroundColor :: "string option"
  createdAt :: "number option"

fun isArray :: "textBoxesField \<Rightarrow> bool" where
  "isArray (IsArray tbs) = True"
| "isArray (NotArray v) = False"

text \<open>\<open>Array.isArray(slide.textBoxes) ? slide.textBoxes : []\<close>\<close>

definition existingTextBoxes :: "Slide \<Rightarrow> TextBox list" where
  "existingTextBoxes slide = (case textBoxes slide of IsArray tbs \<Rightarrow> tbs | NotArray v \<Rightarrow> [])"

text \<open>The storage root with its \<open>slides\<close> entry, and the number of \<open>storage.set\<close> calls made
  on it so far.\<close>

record Storage =
  slides :: "Slide list"
  writes :: nat

definition storage_set :: "Slide list \<Rightarrow> Storage \<Rightarrow> Storage" where
  "storage_set v storage = storage \<lparr> slides := v, writes := Suc (writes storage) \<rparr>"

subsection \<open>\<open>deleteSlide\<close>\<close>

definition deleteSlide :: "string \<Rightarrow> Storage \<Rightarrow> Storage" where
  "deleteSlide slideId storage =
     (let currentSlides = slides storage;
          filteredSlides = filter (\<lambda>slide. slide_id slide \<noteq> slideId) currentSlides
      in storage_set filteredSlides storage)"

subsection \<open>\<open>migrateSlides\<close>\<close>

text \<open>\<open>a || b\<close> on an optional string and on an optional number: the left operand unless
  it is falsy (absent, the empty string, zero).\<close>

definition orString :: "string option \<Rightarrow> string \<Rightarrow> string" where
  "orString a b = (case a of None \<Rightarrow> b | Some s \<Rightarrow> if s = [] then b else s)"

definition orNumber :: "number option \<Rightarrow> number \<Rightarrow> number" where
  "orNumber a b = (case a of None \<Rightarrow> b | Some n \<Rightarrow> if n = 0 then b else n)"

definition BACKGROUND_COLOR :: string where
  "BACKGROUND_COLOR = ''white''"

text \<open>The callback of the \<open>map\<close> in \<open>migrateSlides\<close>; \<open>now\<close> is what \<open>Date.now()\<close> returns
  when it is called for this slide.\<close>

definition migrateSlide :: "number \<Rightarrow> Slide \<Rightarrow> Slide" where
  "migrateSlide now slide =
     (if \<not> isArray (textBoxes slide)
      then \<lparr> slide_id = slide_id slide,
             textBoxes = IsArray [],
             backgroundColor = Some (orString (backgroundColor slide) BACKGROUND_COLOR),
             createdAt = Some (orNumber (createdAt slide) now) \<rparr>
      else slide)"

text \<open>\<open>clock i\<close> is the reading of \<open>Date.now()\<close> while the slide at index \<open>i\<close> is mapped.
  The flag \<open>needsMigration\<close> is set by the callback exactly when some slide takes the
  first branch.\<close>

definition migrateSlides :: "(nat \<Rightarrow> number) \<Rightarrow> Storage \<Rightarrow> Storage" where
  "migrateSlides clock storage =
     (let currentSlides = slides storage;
          needsMigration = list_ex (\<lambda>slide. \<not> isArray (textBoxes slide)) currentSlides;
          migratedSlides = map (\<lambda>(i, slide). migrateSlide (clock i) slide) (enumerate 0 currentSlides)
      in if needsMigration then storage_set migratedSlides storage else storage)"

subsection \<open>\<open>updateTextBox\<close>\<close>

text \<open>\<open>Partial<TextBox>\<close>: every key is absent (\<open>None\<close>) or carries a value.\<close>

record TextBoxUpdates =
  u_id :: "string option"
  u_text :: "string option"
  u_x :: "number option"
  u_y :: "number option"
  u_width :: "number option"
  u_height :: "number option"
  u_fontSize :: "number option"
  u_color :: "string option"
  u_createdBy :: "string option"
  u_createdAt :: "number option"

text \<open>The spread \<open>{ ...textBox, ...updates }\<close>.\<close>

definition spreadTextBox :: "TextBox \<Rightarrow> TextBoxUpdates \<Rightarrow> TextBox" where
  "spreadTextBox textBox updates =
     \<lparr> tb_id = (case u_id updates of None \<Rightarrow> tb_id textBox | Some v \<Rightarrow> v),
       tb_text = (case u_text updates of None \<Rightarrow> tb_text textBox | Some v \<Rightarrow> v),
       tb_x = (case u_x updates of None \<Rightarrow> tb_x textBox | Some v \<Rightarrow> v),
       tb_y = (case u_y updates of None \<Rightarrow> tb_y textBox | Some v \<Rightarrow> v),
       tb_width = (case u_width updates of None \<Rightarrow> tb_width textBox | Some v \<Rightarrow> v),
       tb_height = (case u_height updates of None \<Rightarrow> tb_height textBox | Some v \<Rightarrow> v),
       tb_fontSize = (case u_fontSize updates of None \<Rightarrow> tb_fontSize textBox | Some v \<Rightarrow> v),
       tb_color = (case u_color updates of None \<Rightarrow> tb_color textBox | Some v \<Rightarrow> v),
       tb_createdBy = (case u_createdBy updates of None \<Rightarrow> tb_createdBy textBox | Some v \<Rightarrow> v),
       tb_createdAt = (case u_createdAt updates of None \<Rightarrow> tb_createdAt textBox | Some v \<Rightarrow> v) \<rparr>"

definition updateTextBoxMutation :: "string \<Rightarrow> string \<Rightarrow> TextBoxUpdates \<Rightarrow> Storage \<Rightarrow> Storage" where
  "updateTextBoxMutation slideId textBoxId updates storage =
     (let currentSlides = slides storage;
          updatedSlides =
            map (\<lambda>slide.
                   if slide_id slide = slideId
                   then slide \<lparr> textBoxes :=
                          IsArray (map (\<lambda>textBox. if tb_id textBox = textBoxId
                                                   then spreadTextBox textBox updates
                                                   else textBox)
                                       (existingTextBoxes slide)) \<rparr>
                   else slide)
                currentSlides
      in storage_set updatedSlides storage)"

section \<open>The access and visibility policy: \<open>useShareMode\<close>\<close>

text \<open>\<open>String.prototype.split\<close> with a one-character separator, and \<open>Array.prototype.join\<close>
  (the share dialog builds the parameter with \<open>selectedIds.join(',')\<close>).\<close>

fun js_split :: "char \<Rightarrow> string \<Rightarrow> string list" where
  "js_split sep [] = [[]]"
| "js_split sep (c # cs) =
     (if c = sep then [] # js_split sep cs
      else (case js_split sep cs of
              w # ws \<Rightarrow> (c # w) # ws
            | [] \<Rightarrow> [[c]]))"

fun js_join :: "char \<Rightarrow> string list \<Rightarrow> string" where
  "js_join sep [] = []"
| "js_join sep [w] = w"
| "js_join sep (w # v # ws) = w @ sep # js_join sep (v # ws)"

record UseShareModeResult =
  readOnly :: bool
  visibleSlides :: "Slide list"
  allowedSlideIds :: "string set option"
  isSharedMode :: bool

text \<open>
  The first \<open>useMemo\<close>: \<open>sharedParam\<close> and \<open>editParam\<close> are what
  \<open>URLSearchParams.get\<close> returns for \<open>shared\<close> and \<open>edit\<close> (\<open>None\<close> for \<open>null\<close>).
  \<open>!sharedParam\<close> holds for \<open>null\<close> and for the empty string; \<open>filter(Boolean)\<close> drops the
  empty strings.
\<close>

definition parseShareParams :: "string option \<Rightarrow> string option \<Rightarrow> string set option \<times> bool" where
  "parseShareParams sharedParam editParam =
     (case sharedParam of
        None \<Rightarrow> (None, False)
      | Some sp \<Rightarrow>
          if sp = [] then (None, False)
          else
            let ids = filter (\<lambda>w. w \<noteq> []) (js_split CHR '','' sp);
                canEditValue = (editParam = Some ''true'')
            in (Some (set ids), canEditValue))"

definition useShareMode :: "Slide list option \<Rightarrow> string option \<Rightarrow> string option \<Rightarrow> UseShareModeResult" where
  "useShareMode slidesArg sharedParam editParam =
     (let (allowed, canEdit) = parseShareParams sharedParam editParam;
          shared = (allowed \<noteq> None);
          ro = (shared \<and> \<not> canEdit);
          visible =
            (case slidesArg of
               None \<Rightarrow> []
             | Some sl \<Rightarrow>
                 (case allowed of
                    None \<Rightarrow> sl
                  | Some ids \<Rightarrow> filter (\<lambda>slide. slide_id slide \<in> ids) sl))
      in \<lparr> readOnly = ro, visibleSlides = visible, allowedSlideIds = allowed,
           isSharedMode = shared \<rparr>)"

section \<open>Presence: the auto-follow effect of \<open>SlideList\<close>\<close>

record Presence =
  currentSlideId :: "string option"
  editingTextBoxId :: "string option"
  cursor :: "(number \<times> number) option"
  userName :: string
  userColor :: string

text \<open>What the effect reads and writes: the ref \<open>prevSlideCountRef\<close> and the local
  presence (through \<open>updateMyPresence\<close>).\<close>

record SlideListState =
  prevSlideCountRef :: nat
  myPresence :: Presence

text \<open>
  One run of the effect. \<open>others\<close> holds the presence of every other participant
  (\<open>None\<close> where \<open>other.presence\<close> is undefined). The index \<open>currentSlideCount - 1\<close> is
  read only under \<open>currentSlideCount > prevSlideCount\<close>, where it is in range.
\<close>

definition autoFollowEffect :: "Slide list option \<Rightarrow> Presence option list \<Rightarrow> SlideListState \<Rightarrow> SlideListState" where
  "autoFollowEffect slidesArg others st =
     (case slidesArg of
        None \<Rightarrow> st
      | Some sl \<Rightarrow>
          let currentSlideCount = length sl;
              prevSlideCount = prevSlideCountRef st;
              st' =
                (if currentSlideCount > prevSlideCount \<and> prevSlideCount > 0
                 then
                   let newSlide = sl ! (currentSlideCount - 1);
                       someoneElseAddedIt =
                         list_ex (\<lambda>other. case other of
                                    None \<Rightarrow> False
                                  | Some p \<Rightarrow> currentSlideId p = Some (slide_id newSlide))
                                 others
                   in if someoneElseAddedIt \<and> currentSlideId (myPresence st) \<noteq> Some (slide_id newSlide)
                      then st \<lparr> myPresence := (myPresence st)
                                  \<lparr> currentSlideId := Some (slide_id newSlide),
                                    editingTextBoxId := None \<rparr> \<rparr>
                      else st
                 else st)
          in st' \<lparr> prevSlideCountRef := currentSlideCount \<rparr>)"


section \<open>The text binding \<open>useYText\<close>: observers and rebinding\<close>

text \<open>
  Sequence objects (\<open>Y.Text\<close>) are identified by an address, since the hook compares them
  by identity (\<open>latest !== yText\<close>). The state holds what the hook's handlers read and
  write: the materialized string of every sequence, the shared map, the handlers the hook
  has registered, and the hook's two React states (\<open>yText\<close>, \<open>value\<close>).

  A handler is a closure over the \<open>yText\<close> of the render that created it, so a registered
  handler is recorded as the address it captured. \<open>textEffect\<close> and \<open>mapEffect\<close> are the
  \<open>yText\<close> dependency of the last committed run of the two effects (\<open>None\<close> before the
  first commit).
\<close>

type_synonym addr = nat

record Binding =
  texts :: "addr \<Rightarrow> string"
  ymap :: "string \<Rightarrow> addr option"
  textObservers :: "addr \<Rightarrow> addr list"
  mapObservers :: "addr list"
  yText :: addr
  valueState :: string
  textEffect :: "addr option"
  mapEffect :: "addr option"



text \<open>
  React's commit of the two effects. An effect whose dependency \<open>yText\<close> differs from the
  one of its last run is cleaned up (\<open>unobserve\<close> of the handler it registered) and run
  again (\<open>observe\<close> of a new handler over the current \<open>yText\<close>); an effect whose
  dependencies are unchanged is left alone.
\<close>

definition commitTextEffect :: "Binding \<Rightarrow> Binding" where
  "commitTextEffect b =
     (if textEffect b = Some (yText b) then b
      else
        let cleaned =
              (case textEffect b of
                 None \<Rightarrow> b
               | Some old \<Rightarrow>
                   b \<lparr> textObservers := (textObservers b)(old := removeAll old (textObservers b old)) \<rparr>)
        in cleaned \<lparr> textObservers :=
                       (textObservers cleaned)(yText b := textObservers cleaned (yText b) @ [yText b]),
                     textEffect := Some (yText b) \<rparr>)"

definition commitMapEffect :: "Binding \<Rightarrow> Binding" where
  "commitMapEffect b =
     (if mapEffect b = Some (yText b) then b
      else
        let cleaned =
              (case mapEffect b of
                 None \<Rightarrow> b
               | Some old \<Rightarrow> b \<lparr> mapObservers := removeAll old (mapObservers b) \<rparr>)
        in cleaned \<lparr> mapObservers := mapObservers cleaned @ [yText b],
                     mapEffect := Some (yText b) \<rparr>)"

definition commitEffects :: "Binding \<Rightarrow> Binding" where
  "commitEffects b = commitMapEffect (commitTextEffect b)"



text \<open>The binding is attached: both effects are committed for the current \<open>yText\<close>, and
  the hook's only registered handlers are the ones over it.\<close>

definition attached :: "Binding \<Rightarrow> bool" where
  "attached b =
     (textEffect b = Some (yText b) \<and> mapEffect b = Some (yText b)
      \<and> textObservers b (yText b) = [yText b] \<and> mapObservers b = [yText b])"


section \<open>Example data\<close>

text \<open>Concrete records on which the theorems below are instantiated.\<close>

definition exampleSlide :: "string \<Rightarrow> Slide" where
  "exampleSlide i =
     \<lparr> slide_id = i, textBoxes = IsArray [], backgroundColor = Some ''white'',
       createdAt = Some 1700000000000 \<rparr>"

definition exampleTextBox :: "string \<Rightarrow> TextBox" where
  "exampleTextBox i =
     \<lparr> tb_id = i, tb_text = ''hi'', tb_x = 100, tb_y = 100, tb_width = 200, tb_height = 100,
       tb_fontSize = 16, tb_color = ''gray.900'', tb_createdBy = ''anonymous'',
       tb_createdAt = 1700000000000 \<rparr>"

text \<open>The update \<open>{ x: 10, y: 20 }\<close> of a drag.\<close>

definition exampleMove :: TextBoxUpdates where
  "exampleMove =
     \<lparr> u_id = None, u_text = None, u_x = Some 10, u_y = Some 20, u_width = None,
       u_height = None, u_fontSize = None, u_color = None, u_createdBy = None,
       u_createdAt = None \<rparr>"

definition examplePresence :: "string option \<Rightarrow> Presence" where
  "examplePresence current =
     \<lparr> currentSlideId = current, editingTextBoxId = Some ''tb1'', cursor = None,
       userName = ''Ann'', userColor = ''red'' \<rparr>"

text \<open>A clock that reads the same time at every slide.\<close>

definition constClock :: "number \<Rightarrow> nat \<Rightarrow> number" where
  "constClock t i = t"


text \<open>A document whose sequence holds \<open>a\<close>, the emoji U+1F600 (the surrogate pair D83D
  DE00) and \<open>b\<close> in one item, as an insert of the whole string leaves it; and the same
  text with the emoji U+1F601 (D83D DE01).\<close>

definition exampleEmojiDoc :: "(codeUnit, codeUnit list list) ydoc" where
  "exampleEmojiDoc = \<lparr> boundText = [[97, 55357, 56832, 98]], transactions = [] \<rparr>"

definition exampleEmojiNext :: "codeUnit list" where
  "exampleEmojiNext = [97, 55357, 56833, 98]"

text \<open>A document whose sequence holds \<open>abcd\<close> in one item.\<close>

definition exampleAsciiDoc :: "(codeUnit, codeUnit list list) ydoc" where
  "exampleAsciiDoc = \<lparr> boundText = [[97, 98, 99, 100]], transactions = [] \<rparr>"

section \<open>Proofs: the diff\<close>

subsection \<open>The loops\<close>

lemma prefixLoop_le:
  "k \<le> length P \<Longrightarrow> k \<le> length N \<Longrightarrow>
   prefixLoop P N k \<le> length P \<and> prefixLoop P N k \<le> length N"
proof (induction P N k rule: prefixLoop.induct)
  case (1 prev nxt k)
  show ?case
  proof (cases "k < length prev \<and> k < length nxt \<and> prev ! k = nxt ! k")
    case True
    with 1 show ?thesis by (subst (1 2) prefixLoop.simps) simp
  next
    case False
    with 1 show ?thesis by (subst (1 2) prefixLoop.simps) auto
  qed
qed

lemma prefixLoop_agree:
  "k \<le> i \<Longrightarrow> i < prefixLoop P N k \<Longrightarrow> P ! i = N ! i"
proof (induction P N k rule: prefixLoop.induct)
  case (1 prev nxt k)
  show ?case
  proof (cases "k < length prev \<and> k < length nxt \<and> prev ! k = nxt ! k")
    case True
    then have unfold: "prefixLoop prev nxt k = prefixLoop prev nxt (Suc k)"
      by (subst prefixLoop.simps) simp
    show ?thesis
    proof (cases "i = k")
      case True
      with \<open>k < length prev \<and> k < length nxt \<and> prev ! k = nxt ! k\<close> show ?thesis by simp
    next
      case False
      with "1.prems" have "Suc k \<le> i" by simp
      with 1 True unfold show ?thesis by simp
    qed
  next
    case False
    then have "prefixLoop prev nxt k = k" by (subst prefixLoop.simps) auto
    with "1.prems" show ?thesis by simp
  qed
qed

lemma suffixLoop_le:
  "s \<le> length P - p \<Longrightarrow> s \<le> length N - p \<Longrightarrow>
   suffixLoop P N p s \<le> length P - p \<and> suffixLoop P N p s \<le> length N - p"
proof (induction P N p s rule: suffixLoop.induct)
  case (1 prev nxt p s)
  show ?case
  proof (cases "s < length prev - p \<and> s < length nxt - p
                \<and> prev ! (length prev - 1 - s) = nxt ! (length nxt - 1 - s)")
    case True
    with 1 show ?thesis by (subst (1 2) suffixLoop.simps) simp
  next
    case False
    with 1 show ?thesis by (subst (1 2) suffixLoop.simps) auto
  qed
qed

lemma suffixLoop_agree:
  "s \<le> j \<Longrightarrow> j < suffixLoop P N p s \<Longrightarrow>
   P ! (length P - 1 - j) = N ! (length N - 1 - j)"
proof (induction P N p s rule: suffixLoop.induct)
  case (1 prev nxt p s)
  show ?case
  proof (cases "s < length prev - p \<and> s < length nxt - p
                \<and> prev ! (length prev - 1 - s) = nxt ! (length nxt - 1 - s)")
    case True
    then have unfold: "suffixLoop prev nxt p s = suffixLoop prev nxt p (Suc s)"
      by (subst suffixLoop.simps) simp
    show ?thesis
    proof (cases "j = s")
      case True
      with \<open>s < length prev - p \<and> s < length nxt - p
            \<and> prev ! (length prev - 1 - s) = nxt ! (length nxt - 1 - s)\<close>
      show ?thesis by simp
    next
      case False
      with "1.prems" have "Suc s \<le> j" by simp
      with 1 True unfold show ?thesis by simp
    qed
  next
    case False
    then have "suffixLoop prev nxt p s = s" by (subst suffixLoop.simps) auto
    with "1.prems" show ?thesis by simp
  qed
qed

lemma prefix_take: "take (prefixLoop P N 0) P = take (prefixLoop P N 0) N"
proof -
  have "prefixLoop P N 0 \<le> length P" "prefixLoop P N 0 \<le> length N"
    using prefixLoop_le [of 0 P N] by simp_all
  moreover have "\<forall>i. i < prefixLoop P N 0 \<longrightarrow> P ! i = N ! i"
    using prefixLoop_agree [of 0 _ P N] by simp
  ultimately show ?thesis by (intro nth_take_lemma) auto
qed

lemma suffix_drop:
  "drop (length P - suffixLoop P N p 0) P = drop (length N - suffixLoop P N p 0) N"
proof -
  let ?s = "suffixLoop P N p 0"
  have le: "?s \<le> length P - p" "?s \<le> length N - p"
    using suffixLoop_le [of 0 P p N] by simp_all
  show ?thesis
  proof (rule nth_equalityI)
    show "length (drop (length P - ?s) P) = length (drop (length N - ?s) N)"
      using le by simp
  next
    fix i assume "i < length (drop (length P - ?s) P)"
    with le have i: "i < ?s" by simp
    then have j: "?s - 1 - i < ?s" by simp
    have "P ! (length P - 1 - (?s - 1 - i)) = N ! (length N - 1 - (?s - 1 - i))"
      using suffixLoop_agree [of 0 "?s - 1 - i" P N p] j by simp
    moreover have "length P - 1 - (?s - 1 - i) = length P - ?s + i"
      using le i by simp
    moreover have "length N - 1 - (?s - 1 - i) = length N - ?s + i"
      using le i by simp
    ultimately show "drop (length P - ?s) P ! i = drop (length N - ?s) N ! i"
      using le by simp
  qed
qed

text \<open>
  Where the loops stop: at an end of one of the strings (for the suffix loop, at the
  prefix) or at the first pair of code units that differ. The last two disjuncts only
  cover a start beyond the strings, which \<open>setValue\<close> never uses.
\<close>

lemma prefixLoop_stop:
  "prefixLoop P N k = length P \<or> prefixLoop P N k = length N
   \<or> P ! prefixLoop P N k \<noteq> N ! prefixLoop P N k \<or> length P < k \<or> length N < k"
proof (induction P N k rule: prefixLoop.induct)
  case (1 prev nxt k)
  show ?case
  proof (cases "k < length prev \<and> k < length nxt \<and> prev ! k = nxt ! k")
    case True
    then have "prefixLoop prev nxt k = prefixLoop prev nxt (Suc k)"
      by (subst prefixLoop.simps) simp
    with 1 True show ?thesis by auto
  next
    case False
    then have "prefixLoop prev nxt k = k" by (subst prefixLoop.simps) auto
    with False show ?thesis by auto
  qed
qed

lemma suffixLoop_stop:
  "suffixLoop P N p s = length P - p \<or> suffixLoop P N p s = length N - p
   \<or> P ! (length P - 1 - suffixLoop P N p s) \<noteq> N ! (length N - 1 - suffixLoop P N p s)
   \<or> length P - p < s \<or> length N - p < s"
proof (induction P N p s rule: suffixLoop.induct)
  case (1 prev nxt p s)
  show ?case
  proof (cases "s < length prev - p \<and> s < length nxt - p
                \<and> prev ! (length prev - 1 - s) = nxt ! (length nxt - 1 - s)")
    case True
    then have "suffixLoop prev nxt p s = suffixLoop prev nxt p (Suc s)"
      by (subst suffixLoop.simps) simp
    with 1 True show ?thesis by auto
  next
    case False
    then have "suffixLoop prev nxt p s = s" by (subst suffixLoop.simps) auto
    with False show ?thesis by auto
  qed
qed

subsection \<open>The edit region\<close>

lemma diff_bounds:
  "prefixLen (computeDiff P N) + suffixLen (computeDiff P N) \<le> min (length P) (length N)"
proof -
  have "prefixLoop P N 0 \<le> length P" "prefixLoop P N 0 \<le> length N"
    using prefixLoop_le [of 0 P N] by simp_all
  moreover have "suffixLoop P N (prefixLoop P N 0) 0 \<le> length P - prefixLoop P N 0"
    "suffixLoop P N (prefixLoop P N 0) 0 \<le> length N - prefixLoop P N 0"
    using suffixLoop_le [of 0 P "prefixLoop P N 0" N] by simp_all
  ultimately have "prefixLoop P N 0 + suffixLoop P N (prefixLoop P N 0) 0 \<le> length P"
    "prefixLoop P N 0 + suffixLoop P N (prefixLoop P N 0) 0 \<le> length N"
    by arith+
  then show ?thesis by (simp add: computeDiff_def Let_def)
qed

text \<open>
  The prefix is the longest common one.
\<close>

lemma prefix_longest:
  assumes "k \<le> length P" and "k \<le> length N" and "take k P = take k N"
  shows "k \<le> prefixLen (computeDiff P N)"
proof (rule ccontr)
  let ?p = "prefixLoop P N 0"
  assume "\<not> k \<le> prefixLen (computeDiff P N)"
  then have lt: "?p < k" by (simp add: computeDiff_def Let_def)
  with assms have "?p < length P" "?p < length N" by simp_all
  with prefixLoop_stop [of P N 0] have "P ! ?p \<noteq> N ! ?p" by simp
  moreover have "take k P ! ?p = P ! ?p" "take k N ! ?p = N ! ?p" using lt by simp_all
  ultimately show False using assms(3) by simp
qed

text \<open>
  The suffix is the longest common one that does not reach into the prefix.
\<close>

lemma suffix_longest:
  assumes "prefixLen (computeDiff P N) + k \<le> length P"
    and "prefixLen (computeDiff P N) + k \<le> length N"
    and "drop (length P - k) P = drop (length N - k) N"
  shows "k \<le> suffixLen (computeDiff P N)"
proof (rule ccontr)
  let ?p = "prefixLoop P N 0"
  let ?s = "suffixLoop P N ?p 0"
  have p: "prefixLen (computeDiff P N) = ?p" by (simp add: computeDiff_def Let_def)
  assume "\<not> k \<le> suffixLen (computeDiff P N)"
  then have lt: "?s < k" by (simp add: computeDiff_def Let_def)
  with assms p have in_range: "?s < length P - ?p" "?s < length N - ?p" by simp_all
  with suffixLoop_stop [of P N ?p 0]
  have ne: "P ! (length P - 1 - ?s) \<noteq> N ! (length N - 1 - ?s)" by simp
  have "drop (length P - k) P ! (k - 1 - ?s) = P ! (length P - k + (k - 1 - ?s))"
    using assms(1) lt by (intro nth_drop) simp
  moreover have "length P - k + (k - 1 - ?s) = length P - 1 - ?s"
    using assms(1) lt by simp
  moreover have "drop (length N - k) N ! (k - 1 - ?s) = N ! (length N - k + (k - 1 - ?s))"
    using assms(2) lt by (intro nth_drop) simp
  moreover have "length N - k + (k - 1 - ?s) = length N - 1 - ?s"
    using assms(2) lt by simp
  ultimately show False using ne assms(3) by simp
qed

text \<open>
  On strings, deleting the region and inserting the insert string gives \<open>N\<close>.
\<close>

lemma diff_reconstruct:
  "take (prefixLen (computeDiff P N)) P @ insertText (computeDiff P N)
     @ drop (prefixLen (computeDiff P N) + deleteLen (computeDiff P N)) P = N"
proof -
  let ?D = "computeDiff P N"
  let ?p = "prefixLen ?D" and ?s = "suffixLen ?D"
  have b: "?p + ?s \<le> length P" "?p + ?s \<le> length N"
    using diff_bounds [of P N] by simp_all
  have p: "?p = prefixLoop P N 0" and s: "?s = suffixLoop P N ?p 0"
    and d: "deleteLen ?D = length P - ?p - ?s"
    and ins: "insertText ?D = slice N ?p (length N - ?s)"
    by (simp_all add: computeDiff_def Let_def)
  have pre: "take ?p P = take ?p N" unfolding p by (rule prefix_take)
  have suf: "drop (length P - ?s) P = drop (length N - ?s) N"
    unfolding s by (rule suffix_drop)
  have "?p + deleteLen ?D = length P - ?s" using b d by simp
  then have "take ?p P @ insertText ?D @ drop (?p + deleteLen ?D) P =
        take ?p N @ slice N ?p (length N - ?s) @ drop (length N - ?s) N"
    using pre suf ins by simp
  also have "\<dots> = take ?p N @ drop ?p N"
  proof -
    have "drop (length N - ?s) N = drop (length N - ?s - ?p) (drop ?p N)"
      using b by simp
    then have "slice N ?p (length N - ?s) @ drop (length N - ?s) N
               = take (length N - ?s - ?p) (drop ?p N) @ drop (length N - ?s - ?p) (drop ?p N)"
      by (simp only: slice_def)
    also have "\<dots> = drop ?p N" by (rule append_take_drop_id)
    finally show ?thesis by simp
  qed
  finally show ?thesis by simp
qed

text \<open>
  Claim C1. Let \<open>P\<close> be the materialized text of the bound sequence and \<open>N \<noteq> P\<close> the
  argument of \<open>setValue\<close>. The edit region computed inside \<open>setValue\<close> has a prefix length
  \<open>p\<close> with \<open>P[0:p] = N[0:p]\<close> and a suffix length \<open>s\<close> with \<open>P[|P|-s:] = N[|N|-s:]\<close>, where
  \<open>p + s \<le> min(|P|, |N|)\<close>; \<open>p\<close> is the length of the longest common prefix and \<open>s\<close> the
  length of the longest common suffix that leaves the prefix alone. The delete length is
  \<open>|P| - p - s\<close> and the insert string is \<open>N[p : |N|-s]\<close>. On the strings, deleting that
  many characters of \<open>P\<close> at \<open>p\<close> and inserting the insert string at \<open>p\<close> gives exactly
  \<open>N\<close>. \<open>setValue\<close> commits one transaction, tagged with its origin, that makes the
  delete (when its length is positive) and then the insert (when its string is not
  empty) on the bound sequence, whatever the sequence does with them.
\<close>

theorem setValue_diff:
  assumes "P \<noteq> N" and "toStr (boundText doc) = P"
  shows "take (prefixLen (computeDiff P N)) P = take (prefixLen (computeDiff P N)) N
       \<and> drop (length P - suffixLen (computeDiff P N)) P
           = drop (length N - suffixLen (computeDiff P N)) N
       \<and> prefixLen (computeDiff P N) + suffixLen (computeDiff P N) \<le> min (length P) (length N)
       \<and> (\<forall>k. k \<le> length P \<and> k \<le> length N \<and> take k P = take k N
              \<longrightarrow> k \<le> prefixLen (computeDiff P N))
       \<and> (\<forall>k. prefixLen (computeDiff P N) + k \<le> length P
              \<and> prefixLen (computeDiff P N) + k \<le> length N
              \<and> drop (length P - k) P = drop (length N - k) N
              \<longrightarrow> k \<le> suffixLen (computeDiff P N))
       \<and> deleteLen (computeDiff P N)
           = length P - prefixLen (computeDiff P N) - suffixLen (computeDiff P N)
       \<and> insertText (computeDiff P N)
           = slice N (prefixLen (computeDiff P N)) (length N - suffixLen (computeDiff P N))
       \<and> slice N (prefixLen (computeDiff P N)) (length N - suffixLen (computeDiff P N))
           = take (length N - suffixLen (computeDiff P N) - prefixLen (computeDiff P N))
               (drop (prefixLen (computeDiff P N)) N)
       \<and> take (prefixLen (computeDiff P N)) P @ insertText (computeDiff P N)
           @ drop (prefixLen (computeDiff P N) + deleteLen (computeDiff P N)) P = N
       \<and> transactions (setValue toStr perform orig N doc)
           = transactions doc
             @ [(orig,
                 (if 0 < deleteLen (computeDiff P N)
                  then [Delete (prefixLen (computeDiff P N)) (deleteLen (computeDiff P N))]
                  else [])
                 @ (if insertText (computeDiff P N) \<noteq> []
                    then [Insert (prefixLen (computeDiff P N)) (insertText (computeDiff P N))]
                    else []))]"
proof -
  let ?D = "computeDiff P N"
  have p: "prefixLen ?D = prefixLoop P N 0"
    and s: "suffixLen ?D = suffixLoop P N (prefixLen ?D) 0"
    by (simp_all add: computeDiff_def Let_def)
  have 1: "take (prefixLen ?D) P = take (prefixLen ?D) N"
    unfolding p by (rule prefix_take)
  have 2: "drop (length P - suffixLen ?D) P = drop (length N - suffixLen ?D) N"
    unfolding s by (rule suffix_drop)
  have 3: "prefixLen ?D + suffixLen ?D \<le> min (length P) (length N)"
    by (rule diff_bounds)
  have 4: "\<forall>k. k \<le> length P \<and> k \<le> length N \<and> take k P = take k N \<longrightarrow> k \<le> prefixLen ?D"
    using prefix_longest [of _ P N] by blast
  have 5: "\<forall>k. prefixLen ?D + k \<le> length P \<and> prefixLen ?D + k \<le> length N
              \<and> drop (length P - k) P = drop (length N - k) N \<longrightarrow> k \<le> suffixLen ?D"
    using suffix_longest [of P N] by blast
  have 6: "deleteLen ?D = length P - prefixLen ?D - suffixLen ?D"
    by (simp add: computeDiff_def Let_def)
  have 7: "insertText ?D = slice N (prefixLen ?D) (length N - suffixLen ?D)"
    by (simp add: computeDiff_def Let_def)
  have 8: "slice N (prefixLen ?D) (length N - suffixLen ?D)
           = take (length N - suffixLen ?D - prefixLen ?D) (drop (prefixLen ?D) N)"
    by (simp add: slice_def)
  have 9: "take (prefixLen ?D) P @ insertText ?D @ drop (prefixLen ?D + deleteLen ?D) P = N"
    by (rule diff_reconstruct)
  have 10: "transactions (setValue toStr perform orig N doc)
           = transactions doc
             @ [(orig,
                 (if 0 < deleteLen ?D then [Delete (prefixLen ?D) (deleteLen ?D)] else [])
                 @ (if insertText ?D \<noteq> [] then [Insert (prefixLen ?D) (insertText ?D)] else []))]"
    using assms by (simp add: setValue_def diffOps_def Let_def)
  from 1 2 3 4 5 6 7 8 9 10 show ?thesis by blast
qed

theorem setValue_diff_witness:
  "[97, 98, 99, 100] \<noteq> [97, 98, 88, 100 :: nat]
   \<and> yjsToString (boundText exampleAsciiDoc) = [97, 98, 99, 100]
   \<and> computeDiff [97, 98, 99, 100] [97, 98, 88, 100 :: nat]
       = \<lparr> prefixLen = 2, suffixLen = 1, deleteLen = 1, insertText = [88] \<rparr>
   \<and> take 2 [97, 98, 99, 100 :: nat] @ [88] @ drop (2 + 1) [97, 98, 99, 100] = [97, 98, 88, 100]
   \<and> transactions (setValue yjsToString yjsPerform 7 [97, 98, 88, 100] exampleAsciiDoc)
       = [(7, [Delete 2 1, Insert 2 [88]])]"
proof -
  have h1: "[97, 98, 99, 100] \<noteq> [97, 98, 88, 100 :: nat]" by simp
  have h2: "yjsToString (boundText exampleAsciiDoc) = [97, 98, 99, 100]"
    by (simp add: yjsToString_def exampleAsciiDoc_def)
  have d: "computeDiff [97, 98, 99, 100] [97, 98, 88, 100 :: nat]
           = \<lparr> prefixLen = 2, suffixLen = 1, deleteLen = 1, insertText = [88] \<rparr>"
    by code_simp
  note th = setValue_diff [where toStr = yjsToString and doc = exampleAsciiDoc and perform = yjsPerform
      and orig = 7, OF h1 h2]
  from th have "take (prefixLen (computeDiff [97, 98, 99, 100] [97, 98, 88, 100 :: nat])) [97, 98, 99, 100]
        @ insertText (computeDiff [97, 98, 99, 100] [97, 98, 88, 100 :: nat])
        @ drop (prefixLen (computeDiff [97, 98, 99, 100] [97, 98, 88, 100 :: nat])
                + deleteLen (computeDiff [97, 98, 99, 100] [97, 98, 88, 100 :: nat])) [97, 98, 99, 100]
        = [97, 98, 88, 100 :: nat]"
    by blast
  then have r: "take 2 [97, 98, 99, 100 :: nat] @ [88] @ drop (2 + 1) [97, 98, 99, 100] = [97, 98, 88, 100]"
    unfolding d by simp
  from th have "transactions (setValue yjsToString yjsPerform 7 [97, 98, 88, 100] exampleAsciiDoc)
       = transactions exampleAsciiDoc
         @ [(7,
             (if 0 < deleteLen (computeDiff [97, 98, 99, 100] [97, 98, 88, 100 :: nat])
              then [Delete (prefixLen (computeDiff [97, 98, 99, 100] [97, 98, 88, 100 :: nat]))
                           (deleteLen (computeDiff [97, 98, 99, 100] [97, 98, 88, 100 :: nat]))]
              else [])
             @ (if insertText (computeDiff [97, 98, 99, 100] [97, 98, 88, 100 :: nat]) \<noteq> []
                then [Insert (prefixLen (computeDiff [97, 98, 99, 100] [97, 98, 88, 100 :: nat]))
                             (insertText (computeDiff [97, 98, 99, 100] [97, 98, 88, 100 :: nat]))]
                else []))]"
    by blast
  then have t: "transactions (setValue yjsToString yjsPerform 7 [97, 98, 88, 100] exampleAsciiDoc)
       = [(7, [Delete 2 1, Insert 2 [88]])]"
    unfolding d by (simp add: exampleAsciiDoc_def)
  from h1 h2 d r t show ?thesis by blast
qed

subsection \<open>Calling \<open>setValue\<close> twice\<close>

text \<open>
  The early return of \<open>setValue\<close>, for any implementation of the sequence: no call on
  the sequence, no transaction.
\<close>

lemma setValue_same: "toStr (boundText doc) = x \<Longrightarrow> setValue toStr perform orig x doc = doc"
  by (simp add: setValue_def)

lemma setValue_twice:
  assumes "toStr (boundText (setValue toStr perform orig x doc)) = x"
  shows "setValue toStr perform orig x (setValue toStr perform orig x doc)
         = setValue toStr perform orig x doc"
  using assms by (rule setValue_same)

lemma emoji_first:
  "setValue yjsToString yjsPerform 7 exampleEmojiNext exampleEmojiDoc
   = \<lparr> boundText = [[97, 65533], [56833], [98]],
       transactions = [(7, [Delete 2 1, Insert 2 [56833]])] \<rparr>"
proof -
  have d: "computeDiff [97, 55357, 56832, 98] [97, 55357, 56833, 98 :: nat]
           = \<lparr> prefixLen = 2, suffixLen = 1, deleteLen = 1, insertText = [56833] \<rparr>"
    by (simp add: computeDiff_def prefixLoop.simps suffixLoop.simps slice_def Let_def)
  show ?thesis
    by (simp add: setValue_def exampleEmojiDoc_def exampleEmojiNext_def yjsToString_def d
          diffOps_def contentSplice_def isHighSurrogate_def REPLACEMENT_CHARACTER_def Let_def)
qed

text \<open>
  Claim C3, evaluated where it fails. The sequence reads \<open>a\<close>, U+1F600, \<open>b\<close> and
  \<open>setValue\<close> is called twice with \<open>a\<close>, U+1F601, \<open>b\<close>. The two emoji share their high
  surrogate, so the loops put the edit region inside the surrogate pair: the first call
  deletes one code unit at index 2 and inserts the low surrogate DE01 there. The
  sequence cuts its item between the two halves of the pair and replaces the high
  surrogate by U+FFFD, so after the first call it does not read the argument, and the
  second call is no no-op: it commits a second transaction.
\<close>

theorem setValue_twice_splits_surrogate_pair:
  "yjsToString (boundText exampleEmojiDoc) = [97, 55357, 56832, 98]
   \<and> exampleEmojiNext = [97, 55357, 56833, 98]
   \<and> transactions (setValue yjsToString yjsPerform 7 exampleEmojiNext exampleEmojiDoc)
       = [(7, [Delete 2 1, Insert 2 [56833]])]
   \<and> yjsToString (boundText (setValue yjsToString yjsPerform 7 exampleEmojiNext exampleEmojiDoc))
       = [97, 65533, 56833, 98]
   \<and> transactions (setValue yjsToString yjsPerform 7 exampleEmojiNext
        (setValue yjsToString yjsPerform 7 exampleEmojiNext exampleEmojiDoc))
       = [(7, [Delete 2 1, Insert 2 [56833]]), (7, [Delete 1 1, Insert 1 [55357]])]"
proof -
  have d2: "computeDiff [97, 65533, 56833, 98] [97, 55357, 56833, 98 :: nat]
           = \<lparr> prefixLen = 1, suffixLen = 2, deleteLen = 1, insertText = [55357] \<rparr>"
    by (simp add: computeDiff_def prefixLoop.simps suffixLoop.simps slice_def Let_def)
  have 1: "yjsToString (boundText exampleEmojiDoc) = [97, 55357, 56832, 98]"
    by (simp add: yjsToString_def exampleEmojiDoc_def)
  have 2: "exampleEmojiNext = [97, 55357, 56833, 98]" by (simp add: exampleEmojiNext_def)
  have 3: "transactions (setValue yjsToString yjsPerform 7 exampleEmojiNext exampleEmojiDoc)
       = [(7, [Delete 2 1, Insert 2 [56833]])]"
    by (simp add: emoji_first)
  have 4: "yjsToString (boundText (setValue yjsToString yjsPerform 7 exampleEmojiNext exampleEmojiDoc))
       = [97, 65533, 56833, 98]"
    by (simp add: emoji_first yjsToString_def)
  have 5: "transactions (setValue yjsToString yjsPerform 7 exampleEmojiNext
        (setValue yjsToString yjsPerform 7 exampleEmojiNext exampleEmojiDoc))
       = [(7, [Delete 2 1, Insert 2 [56833]]), (7, [Delete 1 1, Insert 1 [55357]])]"
    unfolding emoji_first
    by (simp add: setValue_def exampleEmojiNext_def yjsToString_def d2 diffOps_def Let_def)
  from 1 2 3 4 5 show ?thesis by blast
qed

section \<open>Proofs: the structural store\<close>

subsection \<open>\<open>deleteSlide\<close>\<close>

lemma deleteSlide_slides:
  "slides (deleteSlide sid st) = filter (\<lambda>s. slide_id s \<noteq> sid) (slides st)"
  by (simp add: deleteSlide_def storage_set_def Let_def)

text \<open>
  Claim C6. \<open>deleteSlide(id)\<close> stores the list of exactly the slides whose id differs
  from \<open>id\<close>, in their original order. When \<open>id\<close> occurs in the list, no slide with that
  id is left (the slide goes with its text boxes) and the list gets shorter; when it does
  not occur, the list is unchanged. The mutation has no failing branch.
\<close>

theorem deleteSlide_filter:
  "slides (deleteSlide sid st) = filter (\<lambda>s. slide_id s \<noteq> sid) (slides st)
   \<and> subseq (slides (deleteSlide sid st)) (slides st)
   \<and> set (slides (deleteSlide sid st)) = {s \<in> set (slides st). slide_id s \<noteq> sid}
   \<and> (sid \<in> slide_id ` set (slides st) \<longrightarrow>
        sid \<notin> slide_id ` set (slides (deleteSlide sid st))
        \<and> length (slides (deleteSlide sid st)) < length (slides st))
   \<and> (sid \<notin> slide_id ` set (slides st) \<longrightarrow> slides (deleteSlide sid st) = slides st)"
proof -
  let ?r = "slides (deleteSlide sid st)"
  have r: "?r = filter (\<lambda>s. slide_id s \<noteq> sid) (slides st)"
    by (rule deleteSlide_slides)
  have sub: "subseq ?r (slides st)" unfolding r by simp
  have mem: "set ?r = {s \<in> set (slides st). slide_id s \<noteq> sid}" unfolding r by auto
  have gone: "sid \<notin> slide_id ` set ?r" unfolding r by auto
  have shorter: "length ?r < length (slides st)" if "sid \<in> slide_id ` set (slides st)"
  proof -
    from that obtain s where "s \<in> set (slides st)" "\<not> slide_id s \<noteq> sid" by auto
    then show ?thesis unfolding r by (rule length_filter_less)
  qed
  have absent: "?r = slides st" if "sid \<notin> slide_id ` set (slides st)"
    unfolding r using that by (intro filter_True) auto
  from r sub mem gone shorter absent show ?thesis by blast
qed

theorem deleteSlide_filter_witness:
  "''s1'' \<in> slide_id ` set (slides \<lparr> slides = [exampleSlide ''s1'', exampleSlide ''s2''], writes = 0 \<rparr>)
   \<and> slides (deleteSlide ''s1'' \<lparr> slides = [exampleSlide ''s1'', exampleSlide ''s2''], writes = 0 \<rparr>)
       = [exampleSlide ''s2'']
   \<and> ''s9'' \<notin> slide_id ` set (slides \<lparr> slides = [exampleSlide ''s1'', exampleSlide ''s2''], writes = 0 \<rparr>)
   \<and> slides (deleteSlide ''s9'' \<lparr> slides = [exampleSlide ''s1'', exampleSlide ''s2''], writes = 0 \<rparr>)
       = [exampleSlide ''s1'', exampleSlide ''s2'']"
proof -
  let ?st = "\<lparr> slides = [exampleSlide ''s1'', exampleSlide ''s2''], writes = 0 \<rparr>"
  have present: "''s1'' \<in> slide_id ` set (slides ?st)" by (simp add: exampleSlide_def)
  have absent: "''s9'' \<notin> slide_id ` set (slides ?st)" by (simp add: exampleSlide_def)
  have "slides (deleteSlide ''s1'' ?st) = filter (\<lambda>s. slide_id s \<noteq> ''s1'') (slides ?st)"
    by (rule conjunct1 [OF deleteSlide_filter])
  then have removed: "slides (deleteSlide ''s1'' ?st) = [exampleSlide ''s2'']"
    by (simp add: exampleSlide_def)
  from deleteSlide_filter [of "''s9''" ?st] absent
  have "slides (deleteSlide ''s9'' ?st) = slides ?st" by blast
  then have kept: "slides (deleteSlide ''s9'' ?st) = [exampleSlide ''s1'', exampleSlide ''s2'']"
    by simp
  from present removed absent kept show ?thesis by blast
qed

subsection \<open>\<open>migrateSlides\<close>\<close>

lemma migrateSlides_slides:
  "slides (migrateSlides clock st)
   = map (\<lambda>(i, slide). migrateSlide (clock i) slide) (enumerate 0 (slides st))"
proof (cases "list_ex (\<lambda>slide. \<not> isArray (textBoxes slide)) (slides st)")
  case True
  then show ?thesis by (simp add: migrateSlides_def storage_set_def Let_def)
next
  case False
  then have all: "\<forall>s\<in>set (slides st). isArray (textBoxes s)"
    by (simp add: list_ex_iff)
  have "map (\<lambda>(i, slide). migrateSlide (clock i) slide) (enumerate 0 (slides st)) = slides st"
  proof (rule nth_equalityI)
    show "length (map (\<lambda>(i, slide). migrateSlide (clock i) slide) (enumerate 0 (slides st)))
          = length (slides st)" by simp
  next
    fix i assume "i < length (map (\<lambda>(i, slide). migrateSlide (clock i) slide) (enumerate 0 (slides st)))"
    then have i: "i < length (slides st)" by simp
    with all have "isArray (textBoxes (slides st ! i))" by simp
    with i show "map (\<lambda>(i, slide). migrateSlide (clock i) slide) (enumerate 0 (slides st)) ! i
                 = slides st ! i"
      by (simp add: nth_enumerate_eq migrateSlide_def)
  qed
  with False show ?thesis by (simp add: migrateSlides_def Let_def)
qed

lemma migrateSlides_nth:
  "i < length (slides st) \<Longrightarrow>
   slides (migrateSlides clock st) ! i = migrateSlide (clock i) (slides st ! i)"
  by (simp add: migrateSlides_slides nth_enumerate_eq)

lemma migrateSlide_isArray: "isArray (textBoxes (migrateSlide now slide))"
  by (simp add: migrateSlide_def)

lemma migrateSlides_all_arrays:
  "\<forall>s\<in>set (slides (migrateSlides clock st)). isArray (textBoxes s)"
  by (auto simp: migrateSlides_slides migrateSlide_isArray)

lemma migrateSlides_wellformed:
  "\<forall>s\<in>set (slides st). isArray (textBoxes s) \<Longrightarrow> migrateSlides clock st = st"
  by (simp add: migrateSlides_def Let_def list_ex_iff)

text \<open>
  Claim C4, as the claim states it, fails on a legacy slide whose \<open>backgroundColor\<close> is
  present but the empty string and whose \<open>createdAt\<close> is present but zero: both are
  falsy for \<open>||\<close>, so neither is kept.
\<close>

theorem migrateSlides_present_counterexample:
  "\<not> isArray (NotArray ''undefined'')
   \<and> slides (migrateSlides (constClock 1700000000000)
        \<lparr> slides = [\<lparr> slide_id = ''s1'', textBoxes = NotArray ''undefined'',
                       backgroundColor = Some [], createdAt = Some 0 \<rparr>],
          writes = 0 \<rparr>)
     = [\<lparr> slide_id = ''s1'', textBoxes = IsArray [],
          backgroundColor = Some ''white'', createdAt = Some 1700000000000 \<rparr>]"
  by (simp add: migrateSlides_def migrateSlide_def storage_set_def orString_def orNumber_def
        BACKGROUND_COLOR_def constClock_def enumerate_eq_zip Let_def)

text \<open>
  Claim C4, amended. For every slide list: a slide whose \<open>textBoxes\<close> is not an array is
  replaced by a record that keeps its id, has the empty array as \<open>textBoxes\<close>, keeps
  \<open>backgroundColor\<close> when it is present and not the empty string (and is \<open>white\<close>
  otherwise), and keeps \<open>createdAt\<close> when it is present and not zero (and is the current
  time otherwise); a slide whose \<open>textBoxes\<close> is an array is left as it is. When no slide
  needs migration the storage is not written at all, and running \<open>migrateSlides\<close> a second
  time, at any later time, changes nothing.
\<close>

theorem migrateSlides_frame_idempotent:
  "length (slides (migrateSlides clock st)) = length (slides st)
   \<and> (\<forall>i<length (slides st).
         (isArray (textBoxes (slides st ! i)) \<longrightarrow>
            slides (migrateSlides clock st) ! i = slides st ! i)
       \<and> (\<not> isArray (textBoxes (slides st ! i)) \<longrightarrow>
            slide_id (slides (migrateSlides clock st) ! i) = slide_id (slides st ! i)
          \<and> textBoxes (slides (migrateSlides clock st) ! i) = IsArray []
          \<and> backgroundColor (slides (migrateSlides clock st) ! i)
              = (if backgroundColor (slides st ! i) = None \<or> backgroundColor (slides st ! i) = Some []
                 then Some ''white'' else backgroundColor (slides st ! i))
          \<and> createdAt (slides (migrateSlides clock st) ! i)
              = (if createdAt (slides st ! i) = None \<or> createdAt (slides st ! i) = Some 0
                 then Some (clock i) else createdAt (slides st ! i))))
   \<and> ((\<forall>s\<in>set (slides st). isArray (textBoxes s)) \<longrightarrow> migrateSlides clock st = st)
   \<and> migrateSlides clock' (migrateSlides clock st) = migrateSlides clock st"
proof -
  have len: "length (slides (migrateSlides clock st)) = length (slides st)"
    by (simp add: migrateSlides_slides)
  have frame: "slides (migrateSlides clock st) ! i = slides st ! i"
    if "i < length (slides st)" "isArray (textBoxes (slides st ! i))" for i
    using that by (simp add: migrateSlides_nth migrateSlide_def)
  have repl: "slide_id (slides (migrateSlides clock st) ! i) = slide_id (slides st ! i)
          \<and> textBoxes (slides (migrateSlides clock st) ! i) = IsArray []
          \<and> backgroundColor (slides (migrateSlides clock st) ! i)
              = (if backgroundColor (slides st ! i) = None \<or> backgroundColor (slides st ! i) = Some []
                 then Some ''white'' else backgroundColor (slides st ! i))
          \<and> createdAt (slides (migrateSlides clock st) ! i)
              = (if createdAt (slides st ! i) = None \<or> createdAt (slides st ! i) = Some 0
                 then Some (clock i) else createdAt (slides st ! i))"
    if "i < length (slides st)" "\<not> isArray (textBoxes (slides st ! i))" for i
    using that
    by (auto simp: migrateSlides_nth migrateSlide_def orString_def orNumber_def
          BACKGROUND_COLOR_def split: option.splits)
  have noop: "migrateSlides clock st = st" if "\<forall>s\<in>set (slides st). isArray (textBoxes s)"
    using that by (rule migrateSlides_wellformed)
  have idem: "migrateSlides clock' (migrateSlides clock st) = migrateSlides clock st"
    by (rule migrateSlides_wellformed) (rule migrateSlides_all_arrays)
  from len frame repl noop idem show ?thesis by blast
qed

theorem migrateSlides_frame_idempotent_witness:
  "migrateSlides (constClock 1700000000005)
       \<lparr> slides = [exampleSlide ''s1'', exampleSlide ''s2''], writes = 3 \<rparr>
     = \<lparr> slides = [exampleSlide ''s1'', exampleSlide ''s2''], writes = 3 \<rparr>
   \<and> slides (migrateSlides (constClock 1700000000005)
        \<lparr> slides = [exampleSlide ''s1'',
                     \<lparr> slide_id = ''s2'', textBoxes = NotArray ''undefined'',
                       backgroundColor = Some ''blue'', createdAt = None \<rparr>],
          writes = 3 \<rparr>) ! 1
     = \<lparr> slide_id = ''s2'', textBoxes = IsArray [],
         backgroundColor = Some ''blue'', createdAt = Some 1700000000005 \<rparr>"
proof -
  let ?good = "\<lparr> slides = [exampleSlide ''s1'', exampleSlide ''s2''], writes = 3 \<rparr>"
  let ?legacy = "\<lparr> slide_id = ''s2'', textBoxes = NotArray ''undefined'',
                   backgroundColor = Some ''blue'', createdAt = None \<rparr>"
  let ?bad = "\<lparr> slides = [exampleSlide ''s1'', ?legacy], writes = 3 \<rparr>"
  let ?clock = "constClock 1700000000005"
  have wf: "\<forall>s\<in>set (slides ?good). isArray (textBoxes s)"
    by (simp add: exampleSlide_def)
  from migrateSlides_frame_idempotent [of ?clock ?good] wf
  have noop: "migrateSlides ?clock ?good = ?good" by blast
  have i: "(1::nat) < length (slides ?bad)" by simp
  have legacy: "\<not> isArray (textBoxes (slides ?bad ! 1))" by simp
  from migrateSlides_frame_idempotent [of ?clock ?bad] i legacy
  have "slide_id (slides (migrateSlides ?clock ?bad) ! 1) = slide_id (slides ?bad ! 1)
      \<and> textBoxes (slides (migrateSlides ?clock ?bad) ! 1) = IsArray []
      \<and> backgroundColor (slides (migrateSlides ?clock ?bad) ! 1)
          = (if backgroundColor (slides ?bad ! 1) = None \<or> backgroundColor (slides ?bad ! 1) = Some []
             then Some ''white'' else backgroundColor (slides ?bad ! 1))
      \<and> createdAt (slides (migrateSlides ?clock ?bad) ! 1)
          = (if createdAt (slides ?bad ! 1) = None \<or> createdAt (slides ?bad ! 1) = Some 0
             then Some (?clock 1) else createdAt (slides ?bad ! 1))"
    by blast
  then have "slides (migrateSlides ?clock ?bad) ! 1
     = \<lparr> slide_id = ''s2'', textBoxes = IsArray [],
         backgroundColor = Some ''blue'', createdAt = Some 1700000000005 \<rparr>"
    by (cases "slides (migrateSlides ?clock ?bad) ! 1") (simp add: constClock_def)
  with noop show ?thesis by blast
qed

subsection \<open>\<open>updateTextBox\<close>\<close>

lemma updateTextBox_slides:
  "slides (updateTextBoxMutation sid tid u st)
   = map (\<lambda>slide.
            if slide_id slide = sid
            then slide \<lparr> textBoxes :=
                   IsArray (map (\<lambda>textBox. if tb_id textBox = tid
                                            then spreadTextBox textBox u else textBox)
                                (existingTextBoxes slide)) \<rparr>
            else slide)
         (slides st)"
  by (simp add: updateTextBoxMutation_def storage_set_def Let_def)

text \<open>
  Claim C5. \<open>updateTextBox(slideId, textBoxId, updates)\<close> keeps the number and order of
  the slides; a slide with another id is unchanged; a slide with the id \<open>slideId\<close> keeps
  its id, background and creation time, and its \<open>textBoxes\<close> field becomes: the empty
  array when it was not an array, and otherwise the old array with the same number and
  order of text boxes, where a text box with another id is unchanged and a text box with
  the id \<open>textBoxId\<close> is the old one with exactly the given fields replaced. When no slide
  has the id, the list is unchanged; when no text box of the matching slides has the id,
  every slide is unchanged but for a matching slide whose \<open>textBoxes\<close> was not an array,
  which gets the empty array. The mutation has no failing branch.
\<close>

theorem updateTextBox_frame:
  "length (slides (updateTextBoxMutation sid tid u st)) = length (slides st)
   \<and> (\<forall>i<length (slides st).
         (slide_id (slides st ! i) \<noteq> sid \<longrightarrow>
            slides (updateTextBoxMutation sid tid u st) ! i = slides st ! i)
       \<and> (slide_id (slides st ! i) = sid \<longrightarrow>
            slide_id (slides (updateTextBoxMutation sid tid u st) ! i) = slide_id (slides st ! i)
          \<and> backgroundColor (slides (updateTextBoxMutation sid tid u st) ! i)
              = backgroundColor (slides st ! i)
          \<and> createdAt (slides (updateTextBoxMutation sid tid u st) ! i) = createdAt (slides st ! i)
          \<and> (\<forall>v. textBoxes (slides st ! i) = NotArray v \<longrightarrow>
                textBoxes (slides (updateTextBoxMutation sid tid u st) ! i) = IsArray [])
          \<and> (\<forall>tbs. textBoxes (slides st ! i) = IsArray tbs \<longrightarrow>
                textBoxes (slides (updateTextBoxMutation sid tid u st) ! i)
                = IsArray (map (\<lambda>textBox. if tb_id textBox = tid
                                           then spreadTextBox textBox u else textBox) tbs)
              \<and> (\<exists>tbs'. textBoxes (slides (updateTextBoxMutation sid tid u st) ! i) = IsArray tbs'
                    \<and> length tbs' = length tbs
                    \<and> (\<forall>j<length tbs.
                          (tb_id (tbs ! j) \<noteq> tid \<longrightarrow> tbs' ! j = tbs ! j)
                        \<and> (tb_id (tbs ! j) = tid \<longrightarrow> tbs' ! j = spreadTextBox (tbs ! j) u))))))
   \<and> (tb_id (spreadTextBox tb u) = (case u_id u of None \<Rightarrow> tb_id tb | Some v \<Rightarrow> v)
      \<and> tb_text (spreadTextBox tb u) = (case u_text u of None \<Rightarrow> tb_text tb | Some v \<Rightarrow> v)
      \<and> tb_x (spreadTextBox tb u) = (case u_x u of None \<Rightarrow> tb_x tb | Some v \<Rightarrow> v)
      \<and> tb_y (spreadTextBox tb u) = (case u_y u of None \<Rightarrow> tb_y tb | Some v \<Rightarrow> v)
      \<and> tb_width (spreadTextBox tb u) = (case u_width u of None \<Rightarrow> tb_width tb | Some v \<Rightarrow> v)
      \<and> tb_height (spreadTextBox tb u) = (case u_height u of None \<Rightarrow> tb_height tb | Some v \<Rightarrow> v)
      \<and> tb_fontSize (spreadTextBox tb u)
          = (case u_fontSize u of None \<Rightarrow> tb_fontSize tb | Some v \<Rightarrow> v)
      \<and> tb_color (spreadTextBox tb u) = (case u_color u of None \<Rightarrow> tb_color tb | Some v \<Rightarrow> v)
      \<and> tb_createdBy (spreadTextBox tb u)
          = (case u_createdBy u of None \<Rightarrow> tb_createdBy tb | Some v \<Rightarrow> v)
      \<and> tb_createdAt (spreadTextBox tb u)
          = (case u_createdAt u of None \<Rightarrow> tb_createdAt tb | Some v \<Rightarrow> v))
   \<and> ((\<forall>s\<in>set (slides st). slide_id s \<noteq> sid) \<longrightarrow>
        slides (updateTextBoxMutation sid tid u st) = slides st)
   \<and> ((\<forall>s\<in>set (slides st). slide_id s = sid \<longrightarrow>
          (\<forall>tbs. textBoxes s = IsArray tbs \<longrightarrow> (\<forall>t\<in>set tbs. tb_id t \<noteq> tid))) \<longrightarrow>
        (\<forall>i<length (slides st).
           (slide_id (slides st ! i) \<noteq> sid \<or> isArray (textBoxes (slides st ! i)) \<longrightarrow>
              slides (updateTextBoxMutation sid tid u st) ! i = slides st ! i)
         \<and> (slide_id (slides st ! i) = sid \<and> \<not> isArray (textBoxes (slides st ! i)) \<longrightarrow>
              slides (updateTextBoxMutation sid tid u st) ! i
              = (slides st ! i) \<lparr> textBoxes := IsArray [] \<rparr>)))"
proof -
  let ?new = "slides (updateTextBoxMutation sid tid u st)"
  let ?old = "slides st"
  let ?f = "\<lambda>textBox. if tb_id textBox = tid then spreadTextBox textBox u else textBox"
  have len: "length ?new = length ?old" by (simp add: updateTextBox_slides)
  have other: "?new ! i = ?old ! i" if "i < length ?old" "slide_id (?old ! i) \<noteq> sid" for i
    using that by (simp add: updateTextBox_slides)
  have hit: "?new ! i = (?old ! i) \<lparr> textBoxes := IsArray (map ?f (existingTextBoxes (?old ! i))) \<rparr>"
    if "i < length ?old" "slide_id (?old ! i) = sid" for i
    using that by (simp add: updateTextBox_slides)
  have legacy: "textBoxes (?new ! i) = IsArray []"
    if "i < length ?old" "slide_id (?old ! i) = sid" "textBoxes (?old ! i) = NotArray v" for i v
    using hit [OF that(1,2)] that(3) by (simp add: existingTextBoxes_def)
  have arr: "textBoxes (?new ! i) = IsArray (map ?f tbs)"
    if "i < length ?old" "slide_id (?old ! i) = sid" "textBoxes (?old ! i) = IsArray tbs" for i tbs
    using hit [OF that(1,2)] that(3) by (simp add: existingTextBoxes_def)
  have arr_nth: "\<exists>tbs'. textBoxes (?new ! i) = IsArray tbs' \<and> length tbs' = length tbs
                    \<and> (\<forall>j<length tbs.
                          (tb_id (tbs ! j) \<noteq> tid \<longrightarrow> tbs' ! j = tbs ! j)
                        \<and> (tb_id (tbs ! j) = tid \<longrightarrow> tbs' ! j = spreadTextBox (tbs ! j) u))"
    if "i < length ?old" "slide_id (?old ! i) = sid" "textBoxes (?old ! i) = IsArray tbs" for i tbs
    using arr [OF that] by (intro exI [of _ "map ?f tbs"]) simp
  have keep: "slide_id (?new ! i) = slide_id (?old ! i)
          \<and> backgroundColor (?new ! i) = backgroundColor (?old ! i)
          \<and> createdAt (?new ! i) = createdAt (?old ! i)"
    if "i < length ?old" "slide_id (?old ! i) = sid" for i
    using hit [OF that] by simp
  have fields: "tb_id (spreadTextBox tb u) = (case u_id u of None \<Rightarrow> tb_id tb | Some v \<Rightarrow> v)
      \<and> tb_text (spreadTextBox tb u) = (case u_text u of None \<Rightarrow> tb_text tb | Some v \<Rightarrow> v)
      \<and> tb_x (spreadTextBox tb u) = (case u_x u of None \<Rightarrow> tb_x tb | Some v \<Rightarrow> v)
      \<and> tb_y (spreadTextBox tb u) = (case u_y u of None \<Rightarrow> tb_y tb | Some v \<Rightarrow> v)
      \<and> tb_width (spreadTextBox tb u) = (case u_width u of None \<Rightarrow> tb_width tb | Some v \<Rightarrow> v)
      \<and> tb_height (spreadTextBox tb u) = (case u_height u of None \<Rightarrow> tb_height tb | Some v \<Rightarrow> v)
      \<and> tb_fontSize (spreadTextBox tb u)
          = (case u_fontSize u of None \<Rightarrow> tb_fontSize tb | Some v \<Rightarrow> v)
      \<and> tb_color (spreadTextBox tb u) = (case u_color u of None \<Rightarrow> tb_color tb | Some v \<Rightarrow> v)
      \<and> tb_createdBy (spreadTextBox tb u)
          = (case u_createdBy u of None \<Rightarrow> tb_createdBy tb | Some v \<Rightarrow> v)
      \<and> tb_createdAt (spreadTextBox tb u)
          = (case u_createdAt u of None \<Rightarrow> tb_createdAt tb | Some v \<Rightarrow> v)"
    by (simp add: spreadTextBox_def)
  have noslide: "?new = ?old" if "\<forall>s\<in>set ?old. slide_id s \<noteq> sid"
    unfolding updateTextBox_slides using that by (intro map_idI) simp
  have perslide: "\<forall>i<length ?old.
         (slide_id (?old ! i) \<noteq> sid \<longrightarrow> ?new ! i = ?old ! i)
       \<and> (slide_id (?old ! i) = sid \<longrightarrow>
            slide_id (?new ! i) = slide_id (?old ! i)
          \<and> backgroundColor (?new ! i) = backgroundColor (?old ! i)
          \<and> createdAt (?new ! i) = createdAt (?old ! i)
          \<and> (\<forall>v. textBoxes (?old ! i) = NotArray v \<longrightarrow> textBoxes (?new ! i) = IsArray [])
          \<and> (\<forall>tbs. textBoxes (?old ! i) = IsArray tbs \<longrightarrow>
                textBoxes (?new ! i) = IsArray (map ?f tbs)
              \<and> (\<exists>tbs'. textBoxes (?new ! i) = IsArray tbs'
                    \<and> length tbs' = length tbs
                    \<and> (\<forall>j<length tbs.
                          (tb_id (tbs ! j) \<noteq> tid \<longrightarrow> tbs' ! j = tbs ! j)
                        \<and> (tb_id (tbs ! j) = tid \<longrightarrow> tbs' ! j = spreadTextBox (tbs ! j) u)))))"
  proof (intro allI impI conjI)
    fix i assume "i < length ?old" "slide_id (?old ! i) \<noteq> sid"
    then show "?new ! i = ?old ! i" by (rule other)
  next
    fix i assume i: "i < length ?old" "slide_id (?old ! i) = sid"
    from keep [OF i] show "slide_id (?new ! i) = slide_id (?old ! i)" by simp
    from keep [OF i] show "backgroundColor (?new ! i) = backgroundColor (?old ! i)" by simp
    from keep [OF i] show "createdAt (?new ! i) = createdAt (?old ! i)" by simp
  next
    fix i v assume "i < length ?old" "slide_id (?old ! i) = sid" "textBoxes (?old ! i) = NotArray v"
    then show "textBoxes (?new ! i) = IsArray []" by (rule legacy)
  next
    fix i tbs assume a: "i < length ?old" "slide_id (?old ! i) = sid" "textBoxes (?old ! i) = IsArray tbs"
    from a show "textBoxes (?new ! i) = IsArray (map ?f tbs)" by (rule arr)
    from a show "\<exists>tbs'. textBoxes (?new ! i) = IsArray tbs' \<and> length tbs' = length tbs
                    \<and> (\<forall>j<length tbs.
                          (tb_id (tbs ! j) \<noteq> tid \<longrightarrow> tbs' ! j = tbs ! j)
                        \<and> (tb_id (tbs ! j) = tid \<longrightarrow> tbs' ! j = spreadTextBox (tbs ! j) u))"
      by (rule arr_nth)
  qed
  have notb: "\<forall>i<length ?old.
           (slide_id (?old ! i) \<noteq> sid \<or> isArray (textBoxes (?old ! i)) \<longrightarrow> ?new ! i = ?old ! i)
         \<and> (slide_id (?old ! i) = sid \<and> \<not> isArray (textBoxes (?old ! i)) \<longrightarrow>
              ?new ! i = (?old ! i) \<lparr> textBoxes := IsArray [] \<rparr>)"
    if nomatch: "\<forall>s\<in>set ?old. slide_id s = sid \<longrightarrow>
          (\<forall>tbs. textBoxes s = IsArray tbs \<longrightarrow> (\<forall>t\<in>set tbs. tb_id t \<noteq> tid))"
  proof (intro allI impI conjI)
    fix i assume i: "i < length ?old"
      and c: "slide_id (?old ! i) \<noteq> sid \<or> isArray (textBoxes (?old ! i))"
    show "?new ! i = ?old ! i"
    proof (cases "slide_id (?old ! i) = sid")
      case False
      with i show ?thesis by (simp add: other)
    next
      case True
      with c obtain tbs where tbs: "textBoxes (?old ! i) = IsArray tbs"
        by (cases "textBoxes (?old ! i)") auto
      from i have "?old ! i \<in> set ?old" by simp
      with nomatch True tbs have "\<forall>t\<in>set tbs. tb_id t \<noteq> tid" by blast
      then have "map ?f tbs = tbs" by (intro map_idI) simp
      with hit [OF i True] tbs show ?thesis by (simp add: existingTextBoxes_def)
    qed
  next
    fix i assume i: "i < length ?old"
      and c: "slide_id (?old ! i) = sid \<and> \<not> isArray (textBoxes (?old ! i))"
    then obtain v where "textBoxes (?old ! i) = NotArray v"
      by (cases "textBoxes (?old ! i)") auto
    with hit [of i] i c show "?new ! i = (?old ! i) \<lparr> textBoxes := IsArray [] \<rparr>"
      by (simp add: existingTextBoxes_def)
  qed
  from noslide have c5: "(\<forall>s\<in>set ?old. slide_id s \<noteq> sid) \<longrightarrow> ?new = ?old" by blast
  from notb have c6: "(\<forall>s\<in>set ?old. slide_id s = sid \<longrightarrow>
          (\<forall>tbs. textBoxes s = IsArray tbs \<longrightarrow> (\<forall>t\<in>set tbs. tb_id t \<noteq> tid))) \<longrightarrow>
        (\<forall>i<length ?old.
           (slide_id (?old ! i) \<noteq> sid \<or> isArray (textBoxes (?old ! i)) \<longrightarrow> ?new ! i = ?old ! i)
         \<and> (slide_id (?old ! i) = sid \<and> \<not> isArray (textBoxes (?old ! i)) \<longrightarrow>
              ?new ! i = (?old ! i) \<lparr> textBoxes := IsArray [] \<rparr>))"
    by blast
  show ?thesis
    by (intro conjI len perslide fields [THEN conjunct1] c5 c6) (use fields in blast)+
qed

theorem updateTextBox_frame_witness:
  "slides (updateTextBoxMutation ''s2'' ''t1'' exampleMove
      \<lparr> slides = [exampleSlide ''s1'',
                   (exampleSlide ''s2'') \<lparr> textBoxes := IsArray [exampleTextBox ''t1'', exampleTextBox ''t2''] \<rparr>],
        writes = 0 \<rparr>) ! 1
     = (exampleSlide ''s2'')
          \<lparr> textBoxes := IsArray [(exampleTextBox ''t1'') \<lparr> tb_x := 10, tb_y := 20 \<rparr>,
                                  exampleTextBox ''t2''] \<rparr>
   \<and> slides (updateTextBoxMutation ''s2'' ''t1'' exampleMove
      \<lparr> slides = [exampleSlide ''s1'',
                   (exampleSlide ''s2'') \<lparr> textBoxes := IsArray [exampleTextBox ''t1'', exampleTextBox ''t2''] \<rparr>],
        writes = 0 \<rparr>) ! 0
     = exampleSlide ''s1''
   \<and> slides (updateTextBoxMutation ''s9'' ''t1'' exampleMove
      \<lparr> slides = [exampleSlide ''s1'',
                   (exampleSlide ''s2'') \<lparr> textBoxes := IsArray [exampleTextBox ''t1'', exampleTextBox ''t2''] \<rparr>],
        writes = 0 \<rparr>)
     = [exampleSlide ''s1'',
        (exampleSlide ''s2'') \<lparr> textBoxes := IsArray [exampleTextBox ''t1'', exampleTextBox ''t2''] \<rparr>]"
proof -
  let ?tbs = "[exampleTextBox ''t1'', exampleTextBox ''t2'']"
  let ?s2 = "(exampleSlide ''s2'') \<lparr> textBoxes := IsArray ?tbs \<rparr>"
  let ?st = "\<lparr> slides = [exampleSlide ''s1'', ?s2], writes = 0 \<rparr>"
  let ?new = "slides (updateTextBoxMutation ''s2'' ''t1'' exampleMove ?st)"
  have absent: "\<forall>s\<in>set (slides ?st). slide_id s \<noteq> ''s9''" by (simp add: exampleSlide_def)
  from updateTextBox_frame [of "''s9''" "''t1''" exampleMove ?st] absent
  have "slides (updateTextBoxMutation ''s9'' ''t1'' exampleMove ?st) = slides ?st" by blast
  then have noop: "slides (updateTextBoxMutation ''s9'' ''t1'' exampleMove ?st)
                   = [exampleSlide ''s1'', ?s2]" by simp
  note th = updateTextBox_frame [of "''s2''" "''t1''" exampleMove ?st]
  have i0: "(0::nat) < length (slides ?st)" and i1: "(1::nat) < length (slides ?st)" by simp_all
  have id0: "slide_id (slides ?st ! 0) \<noteq> ''s2''" by (simp add: exampleSlide_def)
  have id1: "slide_id (slides ?st ! 1) = ''s2''" by (simp add: exampleSlide_def)
  have tb1: "textBoxes (slides ?st ! 1) = IsArray ?tbs" by simp
  from th i0 id0 have "?new ! 0 = slides ?st ! 0" by blast
  then have other: "?new ! 0 = exampleSlide ''s1''" by simp
  from th i1 id1 tb1
  have f: "slide_id (?new ! 1) = slide_id (slides ?st ! 1)
         \<and> backgroundColor (?new ! 1) = backgroundColor (slides ?st ! 1)
         \<and> createdAt (?new ! 1) = createdAt (slides ?st ! 1)
         \<and> textBoxes (?new ! 1)
            = IsArray (map (\<lambda>textBox. if tb_id textBox = ''t1''
                                      then spreadTextBox textBox exampleMove else textBox) ?tbs)"
    by blast
  then have hit: "?new ! 1
     = (exampleSlide ''s2'')
          \<lparr> textBoxes := IsArray [(exampleTextBox ''t1'') \<lparr> tb_x := 10, tb_y := 20 \<rparr>,
                                  exampleTextBox ''t2''] \<rparr>"
    by (cases "?new ! 1")
      (simp add: exampleSlide_def exampleTextBox_def exampleMove_def spreadTextBox_def)
  from hit other noop show ?thesis by blast
qed

section \<open>Proofs: the access and visibility policy\<close>

text \<open>\<open>split\<close> always returns at least one piece, so the last case of \<open>js_split\<close> is
  never taken.\<close>

lemma js_split_nonempty: "js_split sep s \<noteq> []"
  by (induction s) (auto split: list.splits)

lemma js_split_no_sep: "sep \<notin> set w \<Longrightarrow> js_split sep w = [w]"
  by (induction w) auto

lemma js_split_append:
  "sep \<notin> set w \<Longrightarrow> js_split sep (w @ sep # rest) = w # js_split sep rest"
  by (induction w) auto

lemma js_split_join:
  "ws \<noteq> [] \<Longrightarrow> \<forall>w\<in>set ws. sep \<notin> set w \<Longrightarrow> js_split sep (js_join sep ws) = ws"
proof (induction sep ws rule: js_join.induct)
  case (1 sep)
  then show ?case by simp
next
  case (2 sep w)
  then show ?case by (simp add: js_split_no_sep)
next
  case (3 sep w v ws)
  then show ?case by (simp add: js_split_append)
qed

lemma js_join_nonempty:
  "ws \<noteq> [] \<Longrightarrow> \<forall>w\<in>set ws. w \<noteq> [] \<Longrightarrow> js_join sep ws \<noteq> []"
  by (induction sep ws rule: js_join.induct) auto

lemma js_split_only_sep: "set s \<subseteq> {sep} \<Longrightarrow> set (js_split sep s) \<subseteq> {[]}"
  by (induction s) auto

lemma useShareMode_no_token:
  "useShareMode (Some sl) None editParam
   = \<lparr> readOnly = False, visibleSlides = sl, allowedSlideIds = None, isSharedMode = False \<rparr>"
  by (simp add: useShareMode_def parseShareParams_def)

lemma useShareMode_token:
  "tok \<noteq> [] \<Longrightarrow>
   useShareMode (Some sl) (Some tok) editParam
   = \<lparr> readOnly = (editParam \<noteq> Some ''true''),
       visibleSlides = filter (\<lambda>slide. slide_id slide \<in> set (filter (\<lambda>w. w \<noteq> []) (js_split CHR '','' tok))) sl,
       allowedSlideIds = Some (set (filter (\<lambda>w. w \<noteq> []) (js_split CHR '','' tok))),
       isSharedMode = True \<rparr>"
  by (simp add: useShareMode_def parseShareParams_def Let_def)

text \<open>
  Claim C2. The result of \<open>useShareMode\<close> is a function of the slide list and the two
  link parameters. With no \<open>shared\<close> parameter: not shared, not read-only, no allowed-id
  set, and every slide visible. With a \<open>shared\<close> parameter that lists slide ids (the ids
  joined by commas, as the share dialog writes it): shared, the allowed set is the set of
  the listed ids, the visible slides are the slide list filtered, in order, to the listed
  ids, and read-only holds exactly when the \<open>edit\<close> parameter is not \<open>true\<close>. For slides
  with the ids \<open>a\<close>, \<open>b\<close>, \<open>c\<close> and the parameters \<open>shared=a,c\<close>, \<open>edit=false\<close> the visible
  slides are the first and the third and the mode is read-only; with no parameter all
  three are visible and the mode is not read-only.
\<close>

theorem useShareMode_policy:
  "useShareMode (Some sl) None editParam
     = \<lparr> readOnly = False, visibleSlides = sl, allowedSlideIds = None, isSharedMode = False \<rparr>
   \<and> (ids \<noteq> [] \<and> (\<forall>i\<in>set ids. i \<noteq> [] \<and> CHR '','' \<notin> set i) \<longrightarrow>
        useShareMode (Some sl) (Some (js_join CHR '','' ids)) editParam
        = \<lparr> readOnly = (editParam \<noteq> Some ''true''),
            visibleSlides = filter (\<lambda>slide. slide_id slide \<in> set ids) sl,
            allowedSlideIds = Some (set ids),
            isSharedMode = True \<rparr>)
   \<and> (slide_id a = ''a'' \<and> slide_id b = ''b'' \<and> slide_id c = ''c'' \<longrightarrow>
        visibleSlides (useShareMode (Some [a, b, c]) (Some ''a,c'') (Some ''false'')) = [a, c]
        \<and> readOnly (useShareMode (Some [a, b, c]) (Some ''a,c'') (Some ''false''))
        \<and> visibleSlides (useShareMode (Some [a, b, c]) None None) = [a, b, c]
        \<and> \<not> readOnly (useShareMode (Some [a, b, c]) None None))"
proof -
  have tokened: "useShareMode (Some sl) (Some (js_join CHR '','' ids)) editParam
        = \<lparr> readOnly = (editParam \<noteq> Some ''true''),
            visibleSlides = filter (\<lambda>slide. slide_id slide \<in> set ids) sl,
            allowedSlideIds = Some (set ids),
            isSharedMode = True \<rparr>"
    if ne: "ids \<noteq> []" and wf: "\<forall>i\<in>set ids. i \<noteq> [] \<and> CHR '','' \<notin> set i"
  proof -
    from ne wf have tok: "js_join CHR '','' ids \<noteq> []" by (intro js_join_nonempty) auto
    from ne wf have split: "js_split CHR '','' (js_join CHR '','' ids) = ids"
      by (intro js_split_join) auto
    from wf have "filter (\<lambda>w. w \<noteq> []) ids = ids" by (intro filter_True) auto
    with split show ?thesis by (simp add: useShareMode_token [OF tok])
  qed
  have ex: "visibleSlides (useShareMode (Some [a, b, c]) (Some ''a,c'') (Some ''false'')) = [a, c]
        \<and> readOnly (useShareMode (Some [a, b, c]) (Some ''a,c'') (Some ''false''))
        \<and> visibleSlides (useShareMode (Some [a, b, c]) None None) = [a, b, c]
        \<and> \<not> readOnly (useShareMode (Some [a, b, c]) None None)"
    if "slide_id a = ''a''" "slide_id b = ''b''" "slide_id c = ''c''"
    using that by (simp add: useShareMode_token useShareMode_no_token)
  from useShareMode_no_token tokened ex show ?thesis by blast
qed

theorem useShareMode_policy_witness:
  "[''a'', ''c''] \<noteq> []
   \<and> js_join CHR '','' [''a'', ''c''] = ''a,c''
   \<and> useShareMode (Some [exampleSlide ''a'', exampleSlide ''b'', exampleSlide ''c''])
        (Some ''a,c'') (Some ''false'')
       = \<lparr> readOnly = True,
           visibleSlides = [exampleSlide ''a'', exampleSlide ''c''],
           allowedSlideIds = Some {''a'', ''c''},
           isSharedMode = True \<rparr>"
proof -
  let ?sl = "[exampleSlide ''a'', exampleSlide ''b'', exampleSlide ''c'']"
  have ne: "[''a'', ''c''] \<noteq> []" by simp
  have wf: "\<forall>i\<in>set [''a'', ''c'']. i \<noteq> [] \<and> CHR '','' \<notin> set i" by simp
  have j: "js_join CHR '','' [''a'', ''c''] = ''a,c''" by simp
  from useShareMode_policy [of ?sl "Some ''false''" "[''a'', ''c'']"] ne wf
  have "useShareMode (Some ?sl) (Some (js_join CHR '','' [''a'', ''c''])) (Some ''false'')
        = \<lparr> readOnly = (Some ''false'' \<noteq> Some ''true''),
            visibleSlides = filter (\<lambda>slide. slide_id slide \<in> set [''a'', ''c'']) ?sl,
            allowedSlideIds = Some (set [''a'', ''c'']),
            isSharedMode = True \<rparr>"
    by blast
  then have "useShareMode (Some ?sl) (Some ''a,c'') (Some ''false'')
       = \<lparr> readOnly = True,
           visibleSlides = [exampleSlide ''a'', exampleSlide ''c''],
           allowedSlideIds = Some {''a'', ''c''},
           isSharedMode = True \<rparr>"
    unfolding j by (simp add: exampleSlide_def)
  with ne j show ?thesis by blast
qed

text \<open>
  Claim C10. A \<open>shared\<close> parameter that is present but empty is treated exactly like an
  absent one (not shared, not read-only, no allowed-id set, every slide visible). A
  non-empty \<open>shared\<close> parameter made of commas only gives the shared mode with an empty
  allowed-id set: no slide is visible, and the mode is read-only unless the \<open>edit\<close>
  parameter is \<open>true\<close>.
\<close>

theorem useShareMode_edge_cases:
  "useShareMode slidesArg (Some []) editParam = useShareMode slidesArg None editParam
   \<and> useShareMode (Some sl) (Some []) editParam
       = \<lparr> readOnly = False, visibleSlides = sl, allowedSlideIds = None, isSharedMode = False \<rparr>
   \<and> (tok \<noteq> [] \<and> set tok \<subseteq> {CHR '',''} \<longrightarrow>
        useShareMode (Some sl) (Some tok) editParam
        = \<lparr> readOnly = (editParam \<noteq> Some ''true''), visibleSlides = [],
            allowedSlideIds = Some {}, isSharedMode = True \<rparr>)"
proof -
  have e1: "useShareMode slidesArg (Some []) editParam = useShareMode slidesArg None editParam"
    by (simp add: useShareMode_def parseShareParams_def)
  have e2: "useShareMode (Some sl) (Some []) editParam
       = \<lparr> readOnly = False, visibleSlides = sl, allowedSlideIds = None, isSharedMode = False \<rparr>"
    by (simp add: useShareMode_def parseShareParams_def)
  have e3: "useShareMode (Some sl) (Some tok) editParam
        = \<lparr> readOnly = (editParam \<noteq> Some ''true''), visibleSlides = [],
            allowedSlideIds = Some {}, isSharedMode = True \<rparr>"
    if ne: "tok \<noteq> []" and commas: "set tok \<subseteq> {CHR '',''}"
  proof -
    from commas have "set (js_split CHR '','' tok) \<subseteq> {[]}" by (rule js_split_only_sep)
    then have "filter (\<lambda>w. w \<noteq> []) (js_split CHR '','' tok) = []"
      by (auto simp: filter_empty_conv)
    then show ?thesis by (simp add: useShareMode_token [OF ne])
  qed
  from e1 e2 e3 show ?thesis by blast
qed

theorem useShareMode_edge_cases_witness:
  "'',,'' \<noteq> [] \<and> set '',,'' \<subseteq> {CHR '',''}
   \<and> useShareMode (Some [exampleSlide ''a'', exampleSlide ''b'']) (Some '',,'') (Some ''false'')
       = \<lparr> readOnly = True, visibleSlides = [], allowedSlideIds = Some {}, isSharedMode = True \<rparr>
   \<and> useShareMode (Some [exampleSlide ''a'', exampleSlide ''b'']) (Some '',,'') (Some ''true'')
       = \<lparr> readOnly = False, visibleSlides = [], allowedSlideIds = Some {}, isSharedMode = True \<rparr>"
proof -
  let ?sl = "[exampleSlide ''a'', exampleSlide ''b'']"
  have ne: "'',,'' \<noteq> []" by simp
  have commas: "set '',,'' \<subseteq> {CHR '',''}" by simp
  from useShareMode_edge_cases [of _ "Some ''false''" ?sl "'',,''"] ne commas
  have "useShareMode (Some ?sl) (Some '',,'') (Some ''false'')
        = \<lparr> readOnly = (Some ''false'' \<noteq> Some ''true''), visibleSlides = [],
            allowedSlideIds = Some {}, isSharedMode = True \<rparr>"
    by blast
  then have ro: "useShareMode (Some ?sl) (Some '',,'') (Some ''false'')
       = \<lparr> readOnly = True, visibleSlides = [], allowedSlideIds = Some {}, isSharedMode = True \<rparr>"
    by simp
  from useShareMode_edge_cases [of _ "Some ''true''" ?sl "'',,''"] ne commas
  have "useShareMode (Some ?sl) (Some '',,'') (Some ''true'')
        = \<lparr> readOnly = (Some ''true'' \<noteq> Some ''true''), visibleSlides = [],
            allowedSlideIds = Some {}, isSharedMode = True \<rparr>"
    by blast
  then have rw: "useShareMode (Some ?sl) (Some '',,'') (Some ''true'')
       = \<lparr> readOnly = False, visibleSlides = [], allowedSlideIds = Some {}, isSharedMode = True \<rparr>"
    by simp
  from ne commas ro rw show ?thesis by blast
qed

section \<open>Proofs: auto-follow\<close>

text \<open>
  Claim C9, as the claim states it, fails when the slide count increases from zero: the
  effect requires \<open>prevSlideCount > 0\<close>. Here the first slide appears, another participant
  is on it and the local participant is not, and the local presence stays as it was.
\<close>

theorem autoFollow_first_slide_counterexample:
  "prevSlideCountRef \<lparr> prevSlideCountRef = 0, myPresence = examplePresence None \<rparr>
     < length [exampleSlide ''s1'']
   \<and> currentSlideId (examplePresence (Some ''s1'')) = Some (slide_id (last [exampleSlide ''s1'']))
   \<and> currentSlideId (myPresence \<lparr> prevSlideCountRef = 0, myPresence = examplePresence None \<rparr>)
       \<noteq> Some (slide_id (last [exampleSlide ''s1'']))
   \<and> autoFollowEffect (Some [exampleSlide ''s1'']) [Some (examplePresence (Some ''s1''))]
        \<lparr> prevSlideCountRef = 0, myPresence = examplePresence None \<rparr>
     = \<lparr> prevSlideCountRef = 1, myPresence = examplePresence None \<rparr>"
  by (simp add: autoFollowEffect_def examplePresence_def exampleSlide_def Let_def)

text \<open>
  Claim C9, amended. For every run of the effect in which the slide count has increased
  from a previous count that is not zero: if the id of the last slide is the current
  slide of some other participant and not the current slide of the local participant,
  the local presence is updated to that slide and its editing text box is cleared (the
  other presence fields are kept); the effect records the new count.
\<close>

theorem autoFollow_switches:
  assumes "0 < prevSlideCountRef st" and "prevSlideCountRef st < length sl"
    and "\<exists>p. Some p \<in> set others \<and> currentSlideId p = Some (slide_id (last sl))"
    and "currentSlideId (myPresence st) \<noteq> Some (slide_id (last sl))"
  shows "myPresence (autoFollowEffect (Some sl) others st)
         = (myPresence st) \<lparr> currentSlideId := Some (slide_id (last sl)), editingTextBoxId := None \<rparr>
       \<and> prevSlideCountRef (autoFollowEffect (Some sl) others st) = length sl"
proof -
  from assms(1,2) have ne: "sl \<noteq> []" by auto
  then have newSlide: "sl ! (length sl - Suc 0) = last sl" by (simp add: last_conv_nth)
  from assms(3) obtain p where "Some p \<in> set others" "currentSlideId p = Some (slide_id (last sl))"
    by blast
  then have someone: "list_ex (\<lambda>other. case other of None \<Rightarrow> False
                        | Some p \<Rightarrow> currentSlideId p = Some (slide_id (last sl))) others"
    unfolding list_ex_iff by (intro bexI [of _ "Some p"]) simp_all
  show ?thesis
    using assms(1,2,4) someone by (simp add: autoFollowEffect_def Let_def newSlide)
qed

theorem autoFollow_switches_witness:
  "0 < prevSlideCountRef \<lparr> prevSlideCountRef = 1, myPresence = examplePresence (Some ''s1'') \<rparr>
   \<and> autoFollowEffect (Some [exampleSlide ''s1'', exampleSlide ''s2''])
        [None, Some (examplePresence (Some ''s2''))]
        \<lparr> prevSlideCountRef = 1, myPresence = examplePresence (Some ''s1'') \<rparr>
     = \<lparr> prevSlideCountRef = 2,
         myPresence = (examplePresence (Some ''s2'')) \<lparr> editingTextBoxId := None \<rparr> \<rparr>"
proof -
  let ?st = "\<lparr> prevSlideCountRef = 1, myPresence = examplePresence (Some ''s1'') \<rparr>"
  let ?sl = "[exampleSlide ''s1'', exampleSlide ''s2'']"
  let ?others = "[None, Some (examplePresence (Some ''s2''))]"
  have h1: "0 < prevSlideCountRef ?st" by simp
  have h2: "prevSlideCountRef ?st < length ?sl" by simp
  have h3: "\<exists>p. Some p \<in> set ?others \<and> currentSlideId p = Some (slide_id (last ?sl))"
    by (intro exI [of _ "examplePresence (Some ''s2'')"])
      (simp add: examplePresence_def exampleSlide_def)
  have h4: "currentSlideId (myPresence ?st) \<noteq> Some (slide_id (last ?sl))"
    by (simp add: examplePresence_def exampleSlide_def)
  note th = autoFollow_switches [OF h1 h2 h3 h4]
  from th have p: "myPresence (autoFollowEffect (Some ?sl) ?others ?st)
         = (myPresence ?st) \<lparr> currentSlideId := Some (slide_id (last ?sl)), editingTextBoxId := None \<rparr>"
    by blast
  from th have c: "prevSlideCountRef (autoFollowEffect (Some ?sl) ?others ?st) = length ?sl"
    by blast
  from p c have "autoFollowEffect (Some ?sl) ?others ?st
     = \<lparr> prevSlideCountRef = 2,
         myPresence = (examplePresence (Some ''s2'')) \<lparr> editingTextBoxId := None \<rparr> \<rparr>"
    by (cases "autoFollowEffect (Some ?sl) ?others ?st")
      (simp add: examplePresence_def exampleSlide_def)
  with h1 show ?thesis by blast
qed

section \<open>Proofs: rebinding\<close>

text \<open>The first commit after the hook's first render attaches the binding.\<close>

lemma mount_attached:
  assumes "textEffect b = None" and "mapEffect b = None"
    and "textObservers b (yText b) = []" and "mapObservers b = []"
  shows "attached (commitEffects b)"
  using assms
  by (simp add: attached_def commitEffects_def commitTextEffect_def commitMapEffect_def)





end
